theory Spec2Isabelle
  imports Complex_Main "HOL-Library.Stream"
begin

section \<open>MultiKeyEnv: data model\<close>

text \<open>
  The development embeds \<^verbatim>\<open>minigrid/envs/multikey.py\<close>: the class
  \<^verbatim>\<open>MultiKeyEnv\<close> with its constructor, its layout generator
  \<^verbatim>\<open>_gen_grid\<close> and its override of \<^verbatim>\<open>step\<close>.
  Colours are the string keys of the palette dictionary \<^verbatim>\<open>COLOR_TO_IDX\<close>.
\<close>

type_synonym color = string

text \<open>
  An object of the carrying container. The override of \<^verbatim>\<open>step\<close> reads one
  attribute of it, \<^verbatim>\<open>t.color\<close>; whatever else the object holds lives in the
  extension of the record.
\<close>

record world_obj =
  color :: color

text \<open>
  The tuple \<^verbatim>\<open>(obs, reward, terminated, truncated, info)\<close> that
  \<^verbatim>\<open>step\<close> returns. The reward is a Python float; the code never computes
  with it (it passes the base value on or stores the constant \<^verbatim>\<open>-1.0\<close>), so
  a real number stands for it.
\<close>

record ('obs, 'info) step_outcome =
  obs :: 'obs
  reward :: real
  terminated :: bool
  truncated :: bool
  info :: 'info

text \<open>
  What the code can raise: the assertion of the constructor, and the fatal error of the
  placement primitive when no cell is free.
\<close>

datatype error = AssertionError | PlacementError

text \<open>
  Modelled from the spec: the grid of the base framework, which is not part of the
  source file. Each cell is empty (\<open>None\<close>), a wall, the goal or a key of some colour.
\<close>

datatype tile = WallTile | GoalTile | KeyTile color

record grid_t =
  width :: int
  height :: int
  tiles :: "int \<times> int \<Rightarrow> tile option"

text \<open>
  Modelled from the spec: the state that the base class \<^verbatim>\<open>MiniGridEnv\<close> owns
  (world state, carried objects, step budget, random source). The source file reads and
  writes these attributes but does not declare them.
\<close>

record minigrid_env =
  grid :: grid_t
  agent_pos :: "int \<times> int"
  agent_dir :: nat
  carrying :: "world_obj list"
  max_steps :: int
  can_carry_multiple_items :: bool
  np_random :: "nat stream"
  mission :: string

text \<open>The attributes that \<^verbatim>\<open>MultiKeyEnv.__init__\<close> adds to the base object.\<close>

record multikey_env = minigrid_env +
  num_keys :: int
  required_key_colors :: "color list"
  ordered :: bool

section \<open>The step override\<close>

text \<open>
  Line 109 of the source:
  \<^verbatim>\<open>all(c == cref for c, cref in zip(colors, self.required_key_colors))\<close>.
  Python's \<^verbatim>\<open>zip\<close> stops at the shorter sequence, as \<^const>\<open>zip\<close> does.
\<close>

definition took_keys_in_order :: "color list \<Rightarrow> color list \<Rightarrow> bool" where
  "took_keys_in_order colors required =
     list_all (\<lambda>(c, cref). c = cref) (zip colors required)"

text \<open>
  \<^verbatim>\<open>MultiKeyEnv.step\<close>. The call \<^verbatim>\<open>super().step(action)\<close> belongs
  to the base framework: it is the parameter \<open>super_step\<close>, which returns the object
  as the base step leaves it together with the raw outcome. The two overrides then read
  \<^verbatim>\<open>self.carrying\<close>, \<^verbatim>\<open>self.required_key_colors\<close> and
  \<^verbatim>\<open>self.ordered\<close> of that object, in the order of the source.
\<close>

definition step ::
  "(multikey_env \<Rightarrow> 'act \<Rightarrow> multikey_env \<times> ('obs, 'info) step_outcome) \<Rightarrow>
     multikey_env \<Rightarrow> 'act \<Rightarrow> multikey_env \<times> ('obs, 'info) step_outcome" where
  "step super_step self action =
     (let (self1, raw) = super_step self action;
          (terminated1, reward1) =
            (if terminated raw \<and> length (carrying self1) \<noteq> length (required_key_colors self1)
             then (True, - 1)
             else (terminated raw, reward raw));
          (terminated2, reward2) =
            (if ordered self1
             then (let colors = map color (carrying self1) in
                   if \<not> took_keys_in_order colors (required_key_colors self1)
                   then (True, - 1)
                   else (terminated1, reward1))
             else (terminated1, reward1))
      in (self1, raw\<lparr>reward := reward2, terminated := terminated2\<rparr>))"

section \<open>The constructor\<close>

text \<open>
  Line 76 of the source:
  \<^verbatim>\<open>tuple(k for k in COLOR_TO_IDX if COLOR_TO_IDX[k] < num_keys)\<close>.
  The dictionary \<^verbatim>\<open>COLOR_TO_IDX\<close> is defined in
  \<^verbatim>\<open>minigrid.core.constants\<close>, outside the source file, so it is a
  parameter: an association list in the dictionary's iteration order. The generator walks
  the keys in that order and looks each one up.
\<close>

definition required_key_colors_of :: "(color \<times> int) list \<Rightarrow> int \<Rightarrow> color list" where
  "required_key_colors_of COLOR_TO_IDX n =
     filter (\<lambda>k. case map_of COLOR_TO_IDX k of Some idx \<Rightarrow> idx < n | None \<Rightarrow> False)
       (map fst COLOR_TO_IDX)"

text \<open>
  \<^verbatim>\<open>MultiKeyEnv.__init__\<close>. The base constructor
  \<^verbatim>\<open>super().__init__(grid_size=size, max_steps=max_steps,
  can_carry_multiple_items=True)\<close> is the parameter \<open>super_init\<close>; it may raise.
  The assertion on \<^verbatim>\<open>num_keys\<close> comes after it and before any attribute of the
  subclass is set. A raise leaves the caller without an object: the result is \<open>Inl\<close>.
  The mission space only carries the fixed mission string and is left out.
\<close>

definition init ::
  "(int \<Rightarrow> int \<Rightarrow> bool \<Rightarrow> error + minigrid_env) \<Rightarrow> (color \<times> int) list \<Rightarrow>
     int \<Rightarrow> int \<Rightarrow> int option \<Rightarrow> bool \<Rightarrow> error + multikey_env" where
  "init super_init COLOR_TO_IDX sz n max_steps_arg ordered_arg =
     (let max_steps1 = (case max_steps_arg of None \<Rightarrow> 10 * sz ^ 2 | Some m \<Rightarrow> m) in
      case super_init sz max_steps1 True of
        Inl e \<Rightarrow> Inl e
      | Inr base \<Rightarrow>
          if \<not> (n \<ge> 1 \<and> n \<le> 5) then Inl AssertionError
          else Inr (minigrid_env.extend base
                 (multikey_env.fields n (required_key_colors_of COLOR_TO_IDX n) ordered_arg)))"

section \<open>The layout generator\<close>

text \<open>
  Modelled from the spec: the grid primitives of the base framework, which the source
  file calls but does not define. \<open>Grid\<close> is the empty grid; \<open>wall_rect\<close> is
  \<^verbatim>\<open>wall_rectangle(region)\<close>, which turns the border of a rectangle into wall;
  \<open>put_obj\<close> is \<^verbatim>\<open>place_fixed_object(obj, cell)\<close>, which stores an object in a
  given cell.
\<close>

definition Grid :: "int \<Rightarrow> int \<Rightarrow> grid_t" where
  "Grid w h = \<lparr>width = w, height = h, tiles = (\<lambda>p. None)\<rparr>"

definition wall_rect :: "grid_t \<Rightarrow> int \<Rightarrow> int \<Rightarrow> int \<Rightarrow> int \<Rightarrow> grid_t" where
  "wall_rect g x y w h =
     g\<lparr>tiles := (\<lambda>(i, j).
          if x \<le> i \<and> i < x + w \<and> y \<le> j \<and> j < y + h \<and>
             (i = x \<or> i = x + w - 1 \<or> j = y \<or> j = y + h - 1)
          then Some WallTile else tiles g (i, j))\<rparr>"

definition put_obj :: "'a minigrid_env_scheme \<Rightarrow> tile \<Rightarrow> int \<Rightarrow> int \<Rightarrow> 'a minigrid_env_scheme" where
  "put_obj self obj i j =
     self\<lparr>grid := (grid self)\<lparr>tiles := (tiles (grid self))((i, j) := Some obj)\<rparr>\<rparr>"

text \<open>
  Modelled from the spec: \<^verbatim>\<open>place_object_random(obj, region, exclude)\<close>, the random
  placement primitive of the base framework. It draws one of the free cells of the region
  (a cell that holds no object and is not the agent's) from the random source, and fails
  with a fatal placement error when the region has no free cell. The random source is a
  stream of draws; a placement consumes one. With no object given, it only chooses the
  cell, which is how the agent is placed.
\<close>

definition cells_in :: "int \<times> int \<Rightarrow> int \<times> int \<Rightarrow> (int \<times> int) list" where
  "cells_in top0 sz =
     concat (map (\<lambda>i. map (\<lambda>j. (i, j)) [snd top0 .. snd top0 + snd sz - 1])
       [fst top0 .. fst top0 + fst sz - 1])"

definition free_cells :: "'a minigrid_env_scheme \<Rightarrow> int \<times> int \<Rightarrow> int \<times> int \<Rightarrow> (int \<times> int) list" where
  "free_cells self top0 sz =
     filter (\<lambda>p. tiles (grid self) p = None \<and> p \<noteq> agent_pos self) (cells_in top0 sz)"

definition place_obj ::
  "'a minigrid_env_scheme \<Rightarrow> tile option \<Rightarrow> int \<times> int \<Rightarrow> int \<times> int \<Rightarrow>
     error + ((int \<times> int) \<times> 'a minigrid_env_scheme)" where
  "place_obj self obj top0 sz =
     (let cands = free_cells self top0 sz in
      if cands = [] then Inl PlacementError
      else
        (let pos = cands ! (shd (np_random self) mod length cands);
             self1 = self\<lparr>np_random := stl (np_random self)\<rparr>
         in case obj of
              None \<Rightarrow> Inr (pos, self1)
            | Some t \<Rightarrow> Inr (pos, put_obj self1 t (fst pos) (snd pos))))"

text \<open>
  Modelled from the spec: the agent is placed at a random free cell of the region with a
  random orientation (one of four). The agent's previous position does not block the draw.
\<close>

definition place_agent ::
  "'a minigrid_env_scheme \<Rightarrow> int \<times> int \<Rightarrow> error + 'a minigrid_env_scheme" where
  "place_agent self sz =
     (case place_obj (self\<lparr>agent_pos := (- 1, - 1)\<rparr>) None (0, 0) sz of
        Inl e \<Rightarrow> Inl e
      | Inr (pos, self1) \<Rightarrow>
          Inr (self1\<lparr>agent_pos := pos,
                     agent_dir := shd (np_random self1) mod 4,
                     np_random := stl (np_random self1)\<rparr>))"

text \<open>
  The loop of lines 97 and 98 of the source:
  \<^verbatim>\<open>for key_color in self.required_key_colors:
    self.place_obj(obj=Key(key_color), top=(0, 0), size=(width, height))\<close>.
  A failed placement ends the generation.
\<close>

fun place_keys :: "multikey_env \<Rightarrow> color list \<Rightarrow> int \<Rightarrow> int \<Rightarrow> error + multikey_env" where
  "place_keys self [] w h = Inr self"
| "place_keys self (key_color # rest) w h =
     (case place_obj self (Some (KeyTile key_color)) (0, 0) (w, h) of
        Inl e \<Rightarrow> Inl e
      | Inr (pos, self1) \<Rightarrow> place_keys self1 rest w h)"

text \<open>
  \<^verbatim>\<open>MultiKeyEnv._gen_grid\<close>: an empty grid, the surrounding walls, the goal at
  \<^verbatim>\<open>(width - 2, height - 2)\<close>, the agent, then one key per required colour, and
  the mission string.
\<close>

definition gen_grid :: "multikey_env \<Rightarrow> int \<Rightarrow> int \<Rightarrow> error + multikey_env" where
  "gen_grid self w h =
     (let self1 = self\<lparr>grid := Grid w h\<rparr>;
          self2 = self1\<lparr>grid := wall_rect (grid self1) 0 0 w h\<rparr>;
          self3 = put_obj self2 GoalTile (w - 2) (h - 2)
      in case place_agent self3 (w, h) of
           Inl e \<Rightarrow> Inl e
         | Inr self4 \<Rightarrow>
             (case place_keys self4 (required_key_colors self4) w h of
                Inl e \<Rightarrow> Inl e
              | Inr self5 \<Rightarrow>
                  Inr (self5\<lparr>mission :=
                    ''pick up all the keys in order and then get to the goal''\<rparr>)))"

section \<open>Concrete inputs\<close>

text \<open>
  The inputs at which the theorems below are instantiated: a palette of six colours in
  index order, a base constructor that always succeeds, an environment of two required
  keys, and the layout that the generator produces for it on a grid of four by four
  cells.
\<close>

definition palette6 :: "(color \<times> int) list" where
  "palette6 = [(''red'', 0), (''green'', 1), (''blue'', 2), (''purple'', 3),
               (''yellow'', 4), (''grey'', 5)]"

definition plain_super_init :: "int \<Rightarrow> int \<Rightarrow> bool \<Rightarrow> error + minigrid_env" where
  "plain_super_init sz m c =
     Inr \<lparr>grid = Grid sz sz, agent_pos = (- 1, - 1), agent_dir = 0, carrying = [],
          max_steps = m, can_carry_multiple_items = c, np_random = siterate Suc 0,
          mission = []\<rparr>"

definition env2 :: multikey_env where
  "env2 = \<lparr>grid = Grid 5 5, agent_pos = (- 1, - 1), agent_dir = 0, carrying = [],
           max_steps = 250, can_carry_multiple_items = True, np_random = siterate Suc 0,
           mission = [], num_keys = 2, required_key_colors = [''red'', ''green''],
           ordered = True\<rparr>"

definition raw_outcome :: "bool \<Rightarrow> bool \<Rightarrow> real \<Rightarrow> (unit, unit) step_outcome" where
  "raw_outcome term trunc r =
     \<lparr>obs = (), reward = r, terminated = term, truncated = trunc, info = ()\<rparr>"

text \<open>A base step that leaves the agent carrying the objects of the given colours.\<close>

definition const_super_step ::
  "color list \<Rightarrow> bool \<Rightarrow> (unit, unit) step_outcome \<Rightarrow> multikey_env \<Rightarrow> unit \<Rightarrow>
     multikey_env \<times> (unit, unit) step_outcome" where
  "const_super_step cs ord raw self a =
     (self\<lparr>carrying := map (\<lambda>c. \<lparr>color = c\<rparr>) cs, ordered := ord\<rparr>, raw)"

definition env2_layout :: multikey_env where
  "env2_layout = env2
     \<lparr>grid := \<lparr>width = 4, height = 4,
        tiles = ((tiles (wall_rect (Grid 4 4) 0 0 4 4))
                  ((2, 2) := Some GoalTile, (1, 2) := Some (KeyTile ''red''),
                   (2, 1) := Some (KeyTile ''green'')))\<rparr>,
      agent_pos := (1, 1), agent_dir := 1,
      np_random := stl (stl (stl (stl (np_random env2)))),
      mission := ''pick up all the keys in order and then get to the goal''\<rparr>"

section \<open>Properties of the step override\<close>

lemma took_keys_in_order_nth:
  "took_keys_in_order colors required \<longleftrightarrow>
     (\<forall>i. i < length colors \<and> i < length required \<longrightarrow> colors ! i = required ! i)"
  by (auto simp: took_keys_in_order_def list_all_length)

text \<open>
  The outcome of the override in one equation: the ordering check, when it fires, wins
  over everything; otherwise the completeness check decides; otherwise the raw outcome
  is returned as it is.
\<close>

lemma step_snd:
  assumes "super_step self action = (self1, raw)"
  shows "snd (step super_step self action) =
     (if ordered self1 \<and>
         \<not> took_keys_in_order (map color (carrying self1)) (required_key_colors self1)
      then raw\<lparr>reward := - 1, terminated := True\<rparr>
      else if terminated raw \<and> length (carrying self1) \<noteq> length (required_key_colors self1)
      then raw\<lparr>reward := - 1, terminated := True\<rparr>
      else raw)"
  using assms by (simp add: step_def Let_def)

text \<open>
  Claim C1. With the ordered flag set, a step after which the colours of the carried
  objects disagree with the required sequence at some position \<open>i\<close> (a position that
  both sequences have) returns terminated = True and reward = -1.0. Nothing is assumed
  about the raw outcome of the base step: it may or may not report termination, and the
  agent may be anywhere.
\<close>

theorem C1_order_violation:
  assumes "super_step self action = (self1, raw)"
    and "ordered self1"
    and "i < length (carrying self1)" and "i < length (required_key_colors self1)"
    and "color (carrying self1 ! i) \<noteq> required_key_colors self1 ! i"
  shows "terminated (snd (step super_step self action)) \<and>
         reward (snd (step super_step self action)) = - 1"
proof -
  have "\<not> took_keys_in_order (map color (carrying self1)) (required_key_colors self1)"
    using assms(3-5) by (auto simp: took_keys_in_order_nth)
  with assms(1,2) show ?thesis by (simp add: step_snd)
qed

theorem C1_order_violation_witness:
  "terminated (snd (step (const_super_step [''green''] True (raw_outcome False False 0)) env2 ())) \<and>
   reward (snd (step (const_super_step [''green''] True (raw_outcome False False 0)) env2 ())) = - 1"
  using C1_order_violation [of "const_super_step [''green''] True (raw_outcome False False 0)" env2 "()"
      "env2\<lparr>carrying := [\<lparr>color = ''green''\<rparr>], ordered := True\<rparr>" "raw_outcome False False 0" 0]
  by (simp add: const_super_step_def env2_def raw_outcome_def)

text \<open>
  Claim C2. When the base step reports terminated = True and the agent carries exactly k
  objects whose colours are the required sequence, position by position, no override
  fires: the outcome of the step is the raw outcome, so terminated = True and the reward
  is the one the base framework gave.
\<close>

theorem C2_success_passes:
  assumes "super_step self action = (self1, raw)"
    and "terminated raw"
    and "int (length (carrying self1)) = num_keys self1"
    and "map color (carrying self1) = required_key_colors self1"
  shows "snd (step super_step self action) = raw \<and>
         terminated (snd (step super_step self action)) \<and>
         reward (snd (step super_step self action)) = reward raw"
proof -
  have "took_keys_in_order (map color (carrying self1)) (required_key_colors self1)"
    using assms(4) by (simp add: took_keys_in_order_nth)
  moreover have "length (carrying self1) = length (required_key_colors self1)"
    using assms(4) by (metis length_map)
  ultimately have "snd (step super_step self action) = raw"
    using assms(1) by (simp add: step_snd)
  then show ?thesis using assms(2) by simp
qed

theorem C2_success_passes_witness:
  "snd (step (const_super_step [''red'', ''green''] True (raw_outcome True False (9 / 10))) env2 ())
     = raw_outcome True False (9 / 10) \<and>
   reward (snd (step (const_super_step [''red'', ''green''] True
     (raw_outcome True False (9 / 10))) env2 ())) = 9 / 10"
  using C2_success_passes [of "const_super_step [''red'', ''green''] True (raw_outcome True False (9 / 10))" env2 "()"
      "env2\<lparr>carrying := [\<lparr>color = ''red''\<rparr>, \<lparr>color = ''green''\<rparr>], ordered := True\<rparr>" "raw_outcome True False (9 / 10)"]
  by (simp add: const_super_step_def env2_def raw_outcome_def)

text \<open>
  Claim C3. When the base step reports terminated = True and the agent carries fewer than
  k objects, the step returns terminated = True and reward = -1.0. The ordered flag and
  the colours carried are arbitrary. The required sequence has k entries, which is what
  the constructor establishes.
\<close>

theorem C3_incomplete_at_goal:
  assumes "super_step self action = (self1, raw)"
    and "terminated raw"
    and "int (length (required_key_colors self1)) = num_keys self1"
    and "int (length (carrying self1)) < num_keys self1"
  shows "terminated (snd (step super_step self action)) \<and>
         reward (snd (step super_step self action)) = - 1"
  using assms by (auto simp: step_snd)

theorem C3_incomplete_at_goal_witness:
  "terminated (snd (step (const_super_step [''red''] False (raw_outcome True False (9 / 10))) env2 ())) \<and>
   reward (snd (step (const_super_step [''red''] False (raw_outcome True False (9 / 10))) env2 ())) = - 1 \<and>
   terminated (snd (step (const_super_step [''red''] True (raw_outcome True False (9 / 10))) env2 ())) \<and>
   reward (snd (step (const_super_step [''red''] True (raw_outcome True False (9 / 10))) env2 ())) = - 1"
  using C3_incomplete_at_goal [of "const_super_step [''red''] False (raw_outcome True False (9 / 10))" env2 "()"
      "env2\<lparr>carrying := [\<lparr>color = ''red''\<rparr>], ordered := False\<rparr>" "raw_outcome True False (9 / 10)"]
    C3_incomplete_at_goal [of "const_super_step [''red''] True (raw_outcome True False (9 / 10))" env2 "()"
      "env2\<lparr>carrying := [\<lparr>color = ''red''\<rparr>], ordered := True\<rparr>" "raw_outcome True False (9 / 10)"]
  by (simp add: const_super_step_def env2_def raw_outcome_def)

text \<open>
  Claim C4. With the ordered flag cleared, the override never turns a running step into
  a terminated one: the terminated flag is the one of the base step, whatever the order
  of the carried colours. And when the base step reports termination while the agent
  carries as many objects as are required, with the required set of colours in any
  order, the raw (success) outcome is returned unchanged.
\<close>

theorem C4_unordered:
  assumes "super_step self action = (self1, raw)"
    and "\<not> ordered self1"
  shows "terminated (snd (step super_step self action)) = terminated raw \<and>
         (terminated raw \<and>
          set (map color (carrying self1)) = set (required_key_colors self1) \<and>
          length (carrying self1) = length (required_key_colors self1) \<longrightarrow>
            snd (step super_step self action) = raw)"
  using assms by (auto simp: step_snd)

theorem C4_unordered_witness:
  "\<not> terminated (snd (step (const_super_step [''green''] False (raw_outcome False False 0)) env2 ())) \<and>
   snd (step (const_super_step [''green'', ''red''] False (raw_outcome True False (9 / 10))) env2 ())
     = raw_outcome True False (9 / 10)"
  using C4_unordered [of "const_super_step [''green''] False (raw_outcome False False 0)" env2 "()"
      "env2\<lparr>carrying := [\<lparr>color = ''green''\<rparr>], ordered := False\<rparr>" "raw_outcome False False 0"]
    C4_unordered [of "const_super_step [''green'', ''red''] False (raw_outcome True False (9 / 10))" env2 "()"
      "env2\<lparr>carrying := [\<lparr>color = ''green''\<rparr>, \<lparr>color = ''red''\<rparr>], ordered := False\<rparr>" "raw_outcome True False (9 / 10)"]
  by (simp add: const_super_step_def env2_def raw_outcome_def insert_commute)

text \<open>
  Claim C5, as the code has it. At a step that the base framework truncates without
  reporting termination, truncated = True is passed on. The reward is the base
  framework's unless the ordered flag is set and the carried colours disagree with the
  required sequence: then that step returns terminated = True and reward = -1.0, still
  with truncated = True. In every other case the raw outcome is returned unchanged.
\<close>

theorem C5_truncation:
  assumes "super_step self action = (self1, raw)"
    and "truncated raw" and "\<not> terminated raw"
  shows "truncated (snd (step super_step self action)) \<and>
         (if ordered self1 \<and>
             \<not> took_keys_in_order (map color (carrying self1)) (required_key_colors self1)
          then reward (snd (step super_step self action)) = - 1 \<and>
               terminated (snd (step super_step self action))
          else snd (step super_step self action) = raw)"
  using assms by (auto simp: step_snd)

theorem C5_truncation_witness:
  "snd (step (const_super_step [''red''] True (raw_outcome False True 0)) env2 ())
     = raw_outcome False True 0 \<and>
   truncated (snd (step (const_super_step [''green''] True (raw_outcome False True 0)) env2 ())) \<and>
   terminated (snd (step (const_super_step [''green''] True (raw_outcome False True 0)) env2 ()))"
  using C5_truncation [of "const_super_step [''red''] True (raw_outcome False True 0)" env2 "()"
      "env2\<lparr>carrying := [\<lparr>color = ''red''\<rparr>], ordered := True\<rparr>" "raw_outcome False True 0"]
    C5_truncation [of "const_super_step [''green''] True (raw_outcome False True 0)" env2 "()"
      "env2\<lparr>carrying := [\<lparr>color = ''green''\<rparr>], ordered := True\<rparr>" "raw_outcome False True 0"]
  by (simp add: const_super_step_def env2_def raw_outcome_def took_keys_in_order_def)

text \<open>
  Claim C5 as stated fails: two keys are required in the order red, green, the ordered
  flag is set, and the agent picks up the green key on the last step of the budget. The
  base step truncates with reward 0 and without termination; the step returns -1.0.
\<close>

theorem C5_truncation_counterexample:
  "truncated (raw_outcome False True 0) \<and> \<not> terminated (raw_outcome False True 0) \<and>
   truncated (snd (step (const_super_step [''green''] True (raw_outcome False True 0)) env2 ())) \<and>
   reward (snd (step (const_super_step [''green''] True (raw_outcome False True 0)) env2 ())) = - 1 \<and>
   reward (snd (step (const_super_step [''green''] True (raw_outcome False True 0)) env2 ()))
     \<noteq> reward (raw_outcome False True 0)"
  by (simp add: step_def const_super_step_def env2_def raw_outcome_def took_keys_in_order_def)

text \<open>
  Claim C8. While nothing is carried, the ordering check holds (the zip is empty), so the
  only override left is the completeness check: the terminated flag is the base step's,
  and the reward changes only when the base step itself reports termination.
\<close>

theorem C8_empty_carrying:
  assumes "super_step self action = (self1, raw)"
    and "carrying self1 = []"
  shows "took_keys_in_order (map color (carrying self1)) (required_key_colors self1) \<and>
         terminated (snd (step super_step self action)) = terminated raw \<and>
         snd (step super_step self action) =
           (if terminated raw \<and> 0 \<noteq> length (required_key_colors self1)
            then raw\<lparr>reward := - 1, terminated := True\<rparr> else raw)"
  using assms by (auto simp: step_snd took_keys_in_order_def)

theorem C8_empty_carrying_witness:
  "snd (step (const_super_step [] True (raw_outcome False False 0)) env2 ())
     = raw_outcome False False 0"
  using C8_empty_carrying [of "const_super_step [] True (raw_outcome False False 0)" env2 "()"
      "env2\<lparr>carrying := [], ordered := True\<rparr>" "raw_outcome False False 0"]
  by (simp add: const_super_step_def env2_def raw_outcome_def)

text \<open>
  Claim C10. Whatever the action and whatever the carried objects, the override changes at
  most the reward and the terminated flag: observation, truncated flag and info are those
  of the base step, and so is the object left behind.
\<close>

theorem C10_step_frame:
  "obs (snd (step super_step self action)) = obs (snd (super_step self action)) \<and>
   truncated (snd (step super_step self action)) = truncated (snd (super_step self action)) \<and>
   info (snd (step super_step self action)) = info (snd (super_step self action)) \<and>
   fst (step super_step self action) = fst (super_step self action)"
  by (simp add: step_def Let_def split: prod.splits)

section \<open>Properties of the constructor\<close>

lemma init_cases:
  assumes "super_init sz (case ms of None \<Rightarrow> 10 * sz ^ 2 | Some m \<Rightarrow> m) True = Inr base"
  shows "init super_init tbl sz n ms ord =
     (if n < 1 \<or> 5 < n then Inl AssertionError
      else Inr (minigrid_env.extend base
                 (multikey_env.fields n (required_key_colors_of tbl n) ord)))"
  using assms by (auto simp: init_def Let_def)

lemma init_Inr_fields:
  assumes "init super_init tbl sz n ms ord = Inr env"
  shows "required_key_colors env = required_key_colors_of tbl n"
    and "num_keys env = n" and "ordered env = ord" and "1 \<le> n" and "n \<le> 5"
  using assms
  by (auto simp: init_def Let_def minigrid_env.defs multikey_env.defs
      split: sum.splits if_splits)

text \<open>
  Claim C6, as the code has it. Once the base constructor has succeeded, the constructor
  fails exactly when the key count is below 1 or above 5, the bound written in the
  assertion, and the failure is an assertion error. A failure returns no object; a
  success returns the object with the key count, the required sequence and the ordered
  flag set.
\<close>

theorem C6_key_count_assertion:
  assumes "super_init sz (case ms of None \<Rightarrow> 10 * sz ^ 2 | Some m \<Rightarrow> m) True = Inr base"
  shows "(isl (init super_init tbl sz n ms ord) \<longleftrightarrow> n < 1 \<or> 5 < n) \<and>
         (init super_init tbl sz n ms ord = Inl AssertionError \<longleftrightarrow> n < 1 \<or> 5 < n) \<and>
         (init super_init tbl sz n ms ord =
            Inr (minigrid_env.extend base
                  (multikey_env.fields n (required_key_colors_of tbl n) ord))
          \<longleftrightarrow> 1 \<le> n \<and> n \<le> 5)"
  using assms by (auto simp: init_cases)

theorem C6_key_count_assertion_witness:
  "init plain_super_init palette6 8 0 None True = Inl AssertionError \<and>
   init plain_super_init palette6 8 6 None True = Inl AssertionError \<and>
   \<not> isl (init plain_super_init palette6 8 5 None True)"
  using C6_key_count_assertion [of plain_super_init 8 None _ palette6 0 True]
    C6_key_count_assertion [of plain_super_init 8 None _ palette6 6 True]
    C6_key_count_assertion [of plain_super_init 8 None _ palette6 5 True]
  by (simp add: plain_super_init_def)

text \<open>
  Claim C6 as stated fails: with a palette of six colours and a key count of 6, which
  does not exceed the number of colours, the constructor still fails, because the bound
  of the assertion is the constant 5.
\<close>

theorem C6_palette_bound_counterexample:
  "isl (init plain_super_init palette6 8 6 None True) \<and>
   \<not> ((6::int) < 1 \<or> int (length palette6) < 6)"
  by (simp add: init_def plain_super_init_def palette6_def)

lemma filter_keys_distinct:
  assumes "distinct (map fst tbl)"
  shows "required_key_colors_of tbl n = map fst (filter (\<lambda>(c, idx). idx < n) tbl)"
proof -
  have "\<And>p. p \<in> set tbl \<Longrightarrow> map_of tbl (fst p) = Some (snd p)"
    using assms by simp
  then have "filter ((\<lambda>k. case map_of tbl k of Some idx \<Rightarrow> idx < n | None \<Rightarrow> False) \<circ> fst) tbl
      = filter (\<lambda>(c, idx). idx < n) tbl"
    by (intro filter_cong) (auto simp: case_prod_beta)
  then show ?thesis
    by (simp add: required_key_colors_of_def filter_map)
qed

lemma filter_index_take:
  assumes "map snd tbl = map int [0..<length tbl]" and "0 \<le> n"
  shows "filter (\<lambda>(c, idx). idx < n) tbl = take (nat n) tbl"
proof -
  have nth: "\<And>i. i < length tbl \<Longrightarrow> snd (tbl ! i) = int i"
  proof -
    fix i assume "i < length tbl"
    then have "map snd tbl ! i = map int [0..<length tbl] ! i"
      using assms(1) by simp
    then show "snd (tbl ! i) = int i" using \<open>i < length tbl\<close> by simp
  qed
  have a: "filter (\<lambda>(c, idx). idx < n) (take (nat n) tbl) = take (nat n) tbl"
  proof (rule filter_True, rule ballI)
    fix p assume "p \<in> set (take (nat n) tbl)"
    then obtain i where i: "i < length (take (nat n) tbl)" "p = take (nat n) tbl ! i"
      by (auto simp: in_set_conv_nth)
    then have "snd p = int i" using nth [of i] by simp
    moreover have "int i < n" using i(1) by (simp, linarith)
    ultimately show "case p of (c, idx) \<Rightarrow> idx < n" by (simp add: case_prod_beta)
  qed
  have b: "filter (\<lambda>(c, idx). idx < n) (drop (nat n) tbl) = []"
  proof (rule filter_False, rule ballI)
    fix p assume "p \<in> set (drop (nat n) tbl)"
    then obtain i where i: "i < length (drop (nat n) tbl)" "p = drop (nat n) tbl ! i"
      by (auto simp: in_set_conv_nth)
    then have "snd p = int (nat n + i)" using nth [of "nat n + i"] by simp
    then show "\<not> (case p of (c, idx) \<Rightarrow> idx < n)"
      using \<open>0 \<le> n\<close> by (simp add: case_prod_beta)
  qed
  have "filter (\<lambda>(c, idx). idx < n) tbl =
      filter (\<lambda>(c, idx). idx < n) (take (nat n) tbl @ drop (nat n) tbl)"
    by simp
  also have "\<dots> = take (nat n) tbl"
    unfolding filter_append a b by simp
  finally show ?thesis .
qed

lemma required_key_colors_of_take:
  assumes "distinct (map fst tbl)" and "map snd tbl = map int [0..<length tbl]" and "0 \<le> n"
  shows "required_key_colors_of tbl n = take (nat n) (map fst tbl)"
  using assms by (simp add: filter_keys_distinct filter_index_take take_map)

section \<open>Properties of the layout generator\<close>

lemma cells_in_iff:
  "(i, j) \<in> set (cells_in (x, y) (w, h)) \<longleftrightarrow> x \<le> i \<and> i < x + w \<and> y \<le> j \<and> j < y + h"
  by (auto simp: cells_in_def image_iff)

lemma place_obj_Inr:
  assumes "place_obj self obj top0 sz = Inr (pos, self1)"
  shows "pos \<in> set (cells_in top0 sz)"
    and "tiles (grid self) pos = None"
    and "pos \<noteq> agent_pos self"
    and "self1 = (case obj of None \<Rightarrow> self\<lparr>np_random := stl (np_random self)\<rparr>
                  | Some t \<Rightarrow> put_obj (self\<lparr>np_random := stl (np_random self)\<rparr>) t (fst pos) (snd pos))"
proof -
  let ?cands = "free_cells self top0 sz"
  from assms have ne: "?cands \<noteq> []"
    by (auto simp: place_obj_def Let_def split: if_splits)
  from assms ne have pos: "pos = ?cands ! (shd (np_random self) mod length ?cands)"
    by (auto simp: place_obj_def Let_def split: option.splits)
  from ne have "shd (np_random self) mod length ?cands < length ?cands" by simp
  then have "pos \<in> set ?cands" unfolding pos by (rule nth_mem)
  then show "pos \<in> set (cells_in top0 sz)" "tiles (grid self) pos = None" "pos \<noteq> agent_pos self"
    by (auto simp: free_cells_def)
  from assms ne show "self1 = (case obj of None \<Rightarrow> self\<lparr>np_random := stl (np_random self)\<rparr>
                  | Some t \<Rightarrow> put_obj (self\<lparr>np_random := stl (np_random self)\<rparr>) t (fst pos) (snd pos))"
    by (auto simp: place_obj_def Let_def split: option.splits)
qed

lemma place_keys_inv:
  assumes "place_keys self cs w h = Inr self'"
  shows "\<exists>ps. length ps = length cs \<and> distinct ps \<and>
           (\<forall>p\<in>set ps. tiles (grid self) p = None \<and> p \<noteq> agent_pos self \<and>
                 p \<in> set (cells_in (0, 0) (w, h))) \<and>
           (\<forall>n<length ps. tiles (grid self') (ps ! n) = Some (KeyTile (cs ! n))) \<and>
           (\<forall>p. p \<notin> set ps \<longrightarrow> tiles (grid self') p = tiles (grid self) p) \<and>
           agent_pos self' = agent_pos self \<and>
           required_key_colors self' = required_key_colors self \<and>
           num_keys self' = num_keys self \<and> ordered self' = ordered self \<and>
           carrying self' = carrying self \<and>
           width (grid self') = width (grid self) \<and> height (grid self') = height (grid self)"
  using assms
proof (induction cs arbitrary: self)
  case Nil
  then show ?case by simp
next
  case (Cons c cs)
  from Cons.prems obtain pos self1 where
    po: "place_obj self (Some (KeyTile c)) (0, 0) (w, h) = Inr (pos, self1)"
    and rest: "place_keys self1 cs w h = Inr self'"
    by (auto split: sum.splits)
  note P = place_obj_Inr [OF po]
  have self1: "self1 = put_obj (self\<lparr>np_random := stl (np_random self)\<rparr>) (KeyTile c) (fst pos) (snd pos)"
    using P(4) by simp
  have t1: "tiles (grid self1) = (tiles (grid self))(pos := Some (KeyTile c))"
    by (simp add: self1 put_obj_def)
  have f1: "agent_pos self1 = agent_pos self" "required_key_colors self1 = required_key_colors self"
    "num_keys self1 = num_keys self" "ordered self1 = ordered self" "carrying self1 = carrying self"
    "width (grid self1) = width (grid self)" "height (grid self1) = height (grid self)"
    by (simp_all add: self1 put_obj_def)
  from Cons.IH [OF rest] obtain ps where ps:
    "length ps = length cs" "distinct ps"
    "\<forall>p\<in>set ps. tiles (grid self1) p = None \<and> p \<noteq> agent_pos self1 \<and>
                 p \<in> set (cells_in (0, 0) (w, h))"
    "\<forall>n<length ps. tiles (grid self') (ps ! n) = Some (KeyTile (cs ! n))"
    "\<forall>p. p \<notin> set ps \<longrightarrow> tiles (grid self') p = tiles (grid self1) p"
    "agent_pos self' = agent_pos self1"
    "required_key_colors self' = required_key_colors self1"
    "num_keys self' = num_keys self1" "ordered self' = ordered self1"
    "carrying self' = carrying self1"
    "width (grid self') = width (grid self1)" "height (grid self') = height (grid self1)"
    by blast
  have notin: "pos \<notin> set ps"
    using ps(3) by (auto simp: t1)
  have free: "\<forall>p\<in>set ps. tiles (grid self) p = None \<and> p \<noteq> agent_pos self \<and>
                 p \<in> set (cells_in (0, 0) (w, h))"
    using ps(3) by (auto simp: t1 f1 split: if_splits)
  have keys: "\<forall>n<length (pos # ps). tiles (grid self') ((pos # ps) ! n) = Some (KeyTile ((c # cs) ! n))"
  proof (intro allI impI)
    fix n assume "n < length (pos # ps)"
    show "tiles (grid self') ((pos # ps) ! n) = Some (KeyTile ((c # cs) ! n))"
    proof (cases n)
      case 0
      have "tiles (grid self') pos = tiles (grid self1) pos"
        using ps(5) notin by blast
      with 0 show ?thesis by (simp add: t1)
    next
      case (Suc m)
      then show ?thesis using ps(4) \<open>n < length (pos # ps)\<close> by simp
    qed
  qed
  have other: "\<forall>p. p \<notin> set (pos # ps) \<longrightarrow> tiles (grid self') p = tiles (grid self) p"
    using ps(5) by (simp add: t1)
  show ?case
    apply (rule exI [of _ "pos # ps"])
    using ps(1,2) notin free P(1,2,3) keys other ps(6-12) f1
    by simp
qed


lemma place_agent_Inr:
  assumes "place_agent self sz = Inr self1"
  shows "\<exists>pos d r. self1 = self\<lparr>agent_pos := pos, agent_dir := d, np_random := r\<rparr> \<and>
           tiles (grid self) pos = None \<and> pos \<in> set (cells_in (0, 0) sz)"
proof -
  from assms obtain pos s1 where
    po: "place_obj (self\<lparr>agent_pos := (- 1, - 1)\<rparr>) None (0, 0) sz = Inr (pos, s1)"
    and self1: "self1 = s1\<lparr>agent_pos := pos, agent_dir := shd (np_random s1) mod 4,
                            np_random := stl (np_random s1)\<rparr>"
    by (auto simp: place_agent_def split: sum.splits)
  note P = place_obj_Inr [OF po]
  have "s1 = self\<lparr>agent_pos := (- 1, - 1), np_random := stl (np_random self)\<rparr>"
    using P(4) by simp
  then have "self1 = self\<lparr>agent_pos := pos, agent_dir := shd (np_random s1) mod 4,
                          np_random := stl (np_random s1)\<rparr>"
    using self1 by simp
  moreover have "tiles (grid self) pos = None" using P(2) by simp
  ultimately show ?thesis using P(1) by blast
qed

lemma gen_grid_frame:
  assumes "gen_grid self w h = Inr self'"
  shows "required_key_colors self' = required_key_colors self"
    and "num_keys self' = num_keys self" and "ordered self' = ordered self"
    and "carrying self' = carrying self"
proof -
  define self3 where
    "self3 = put_obj (self\<lparr>grid := wall_rect (Grid w h) 0 0 w h\<rparr>) GoalTile (w - 2) (h - 2)"
  from assms obtain self4 self5 where
    pa: "place_agent self3 (w, h) = Inr self4"
    and pk: "place_keys self4 (required_key_colors self4) w h = Inr self5"
    and self': "self' = self5\<lparr>mission := ''pick up all the keys in order and then get to the goal''\<rparr>"
    by (auto simp: gen_grid_def Let_def self3_def split: sum.splits)
  from place_agent_Inr [OF pa] obtain a d r where
    self4: "self4 = self3\<lparr>agent_pos := a, agent_dir := d, np_random := r\<rparr>"
    by blast
  have f4: "required_key_colors self4 = required_key_colors self" "num_keys self4 = num_keys self"
    "ordered self4 = ordered self" "carrying self4 = carrying self"
    by (simp_all add: self4 self3_def put_obj_def)
  from place_keys_inv [OF pk] have
    "required_key_colors self5 = required_key_colors self4" "num_keys self5 = num_keys self4"
    "ordered self5 = ordered self4" "carrying self5 = carrying self4"
    by blast+
  then show "required_key_colors self' = required_key_colors self"
    and "num_keys self' = num_keys self" and "ordered self' = ordered self"
    and "carrying self' = carrying self"
    by (simp_all add: self' f4)
qed

lemma cells44: "cells_in (0, 0) (4, 4) =
  [(0,0),(0,1),(0,2),(0,3),(1,0),(1,1),(1,2),(1,3),(2,0),(2,1),(2,2),(2,3),(3,0),(3,1),(3,2),(3,3)]"
  by (simp add: cells_in_def upto_rec1)

lemma gen_grid_env2: "gen_grid env2 4 4 = Inr env2_layout"
  by (simp add: gen_grid_def place_agent_def place_obj_def free_cells_def cells44
      put_obj_def wall_rect_def Grid_def Let_def env2_def env2_layout_def fun_eq_iff)

text \<open>
  Claim C7. For a key count between 1 and 5 and a palette that lists at least five
  distinct colours in index order (indices 0, 1, 2, ...), the required sequence that the
  constructor stores is the first k colours of the palette: it has length k and no
  duplicates, and it depends on nothing but the palette and k. A reset regenerates the
  layout with the layout generator, which leaves the sequence as it is, so every episode
  of the object requires the same sequence.
\<close>

theorem C7_required_sequence:
  assumes "1 \<le> n" and "n \<le> 5"
    and "distinct (map fst tbl)" and "map snd tbl = map int [0..<length tbl]"
    and "5 \<le> length tbl"
    and "init super_init tbl sz n ms ord = Inr env"
  shows "required_key_colors env = take (nat n) (map fst tbl) \<and>
         int (length (required_key_colors env)) = n \<and>
         distinct (required_key_colors env) \<and>
         (\<forall>self w h self'.
            required_key_colors self = required_key_colors env \<and> gen_grid self w h = Inr self'
            \<longrightarrow> required_key_colors self' = required_key_colors env)"
proof -
  have "required_key_colors env = required_key_colors_of tbl n"
    using assms(6) by (rule init_Inr_fields)
  then have eq: "required_key_colors env = take (nat n) (map fst tbl)"
    using assms(1,3,4) by (simp add: required_key_colors_of_take)
  have len: "int (length (required_key_colors env)) = n"
    unfolding eq using assms(1,2,5) by simp
  have dist: "distinct (required_key_colors env)"
    unfolding eq using assms(3) by (rule distinct_take)
  have frame: "\<forall>self w h self'.
      required_key_colors self = required_key_colors env \<and> gen_grid self w h = Inr self'
      \<longrightarrow> required_key_colors self' = required_key_colors env"
  proof (intro allI impI)
    fix self w h self'
    assume a: "required_key_colors self = required_key_colors env \<and> gen_grid self w h = Inr self'"
    then have "required_key_colors self' = required_key_colors self"
      using gen_grid_frame(1) [of self w h self'] by blast
    with a show "required_key_colors self' = required_key_colors env" by simp
  qed
  show ?thesis by (intro conjI eq len dist frame)
qed

theorem C7_required_sequence_witness:
  "\<exists>env. init plain_super_init palette6 8 3 None True = Inr env \<and>
         required_key_colors env = [''red'', ''green'', ''blue''] \<and>
         int (length (required_key_colors env)) = 3 \<and>
         distinct (required_key_colors env)"
proof -
  obtain env where env: "init plain_super_init palette6 8 3 None True = Inr env"
    by (simp add: init_def plain_super_init_def)
  have d: "distinct (map fst palette6)" by (simp add: palette6_def)
  have i: "map snd palette6 = map int [0..<length palette6]"
    by (simp add: palette6_def upt_rec)
  have l: "5 \<le> length palette6" by (simp add: palette6_def)
  have "take (nat 3) (map fst palette6) = [''red'', ''green'', ''blue'']"
    by (simp add: palette6_def)
  with C7_required_sequence [OF _ _ d i l env] env show ?thesis
    by auto
qed

text \<open>
  Claim C9. On a grid of at least three by three cells, every layout that the generator
  returns has wall on its whole outer boundary, has its one goal at
  \<^verbatim>\<open>(width - 2, height - 2)\<close>, and has exactly k keys, one per colour of the
  required sequence and in cells of their own. The agent starts on a cell that holds no
  object, inside the walls and away from the goal and from every key; no key shares the
  goal's cell or a wall's.
\<close>

theorem C9_layout:
  assumes "3 \<le> w" and "3 \<le> h"
    and "int (length (required_key_colors self)) = num_keys self"
    and "gen_grid self w h = Inr self'"
  shows "(\<forall>i j. 0 \<le> i \<and> i < w \<and> 0 \<le> j \<and> j < h \<and> (i = 0 \<or> i = w - 1 \<or> j = 0 \<or> j = h - 1)
            \<longrightarrow> tiles (grid self') (i, j) = Some WallTile) \<and>
         (\<forall>p. tiles (grid self') p = Some GoalTile \<longleftrightarrow> p = (w - 2, h - 2)) \<and>
         (\<exists>ps. int (length ps) = num_keys self' \<and> distinct ps \<and>
               length ps = length (required_key_colors self') \<and>
               (\<forall>n<length ps. tiles (grid self') (ps ! n) =
                                Some (KeyTile (required_key_colors self' ! n))) \<and>
               (\<forall>p c. tiles (grid self') p = Some (KeyTile c) \<longrightarrow> p \<in> set ps) \<and>
               agent_pos self' \<notin> set ps \<and> (w - 2, h - 2) \<notin> set ps) \<and>
         tiles (grid self') (agent_pos self') = None \<and>
         agent_pos self' \<noteq> (w - 2, h - 2) \<and>
         0 < fst (agent_pos self') \<and> fst (agent_pos self') < w - 1 \<and>
         0 < snd (agent_pos self') \<and> snd (agent_pos self') < h - 1"
proof -
  define self3 where
    "self3 = put_obj (self\<lparr>grid := wall_rect (Grid w h) 0 0 w h\<rparr>) GoalTile (w - 2) (h - 2)"
  define T3 where "T3 = tiles (grid self3)"
  have T3: "\<And>i j. T3 (i, j) =
      (if (i, j) = (w - 2, h - 2) then Some GoalTile
       else if 0 \<le> i \<and> i < w \<and> 0 \<le> j \<and> j < h \<and> (i = 0 \<or> i = w - 1 \<or> j = 0 \<or> j = h - 1)
       then Some WallTile else None)"
    by (simp add: T3_def self3_def put_obj_def wall_rect_def Grid_def)
  from assms(4) obtain self4 self5 where
    pa: "place_agent self3 (w, h) = Inr self4"
    and pk: "place_keys self4 (required_key_colors self4) w h = Inr self5"
    and self': "self' = self5\<lparr>mission := ''pick up all the keys in order and then get to the goal''\<rparr>"
    by (auto simp: gen_grid_def Let_def self3_def split: sum.splits)
  from place_agent_Inr [OF pa] obtain a d r where
    self4: "self4 = self3\<lparr>agent_pos := a, agent_dir := d, np_random := r\<rparr>"
    and a_free: "T3 a = None" and a_in: "a \<in> set (cells_in (0, 0) (w, h))"
    unfolding T3_def by blast
  have req4: "required_key_colors self4 = required_key_colors self" "num_keys self4 = num_keys self"
    by (simp_all add: self4 self3_def put_obj_def)
  have T4: "tiles (grid self4) = T3" and a4: "agent_pos self4 = a"
    by (simp_all add: self4 T3_def)
  from place_keys_inv [OF pk] obtain ps where ps:
    "length ps = length (required_key_colors self4)" "distinct ps"
    "\<forall>p\<in>set ps. T3 p = None \<and> p \<noteq> a \<and> p \<in> set (cells_in (0, 0) (w, h))"
    "\<forall>n<length ps. tiles (grid self5) (ps ! n) = Some (KeyTile (required_key_colors self4 ! n))"
    "\<forall>p. p \<notin> set ps \<longrightarrow> tiles (grid self5) p = T3 p"
    "agent_pos self5 = a"
    "required_key_colors self5 = required_key_colors self4"
    "num_keys self5 = num_keys self4"
    unfolding T4 a4 by blast
  have g': "tiles (grid self') = tiles (grid self5)" "agent_pos self' = a"
    "required_key_colors self' = required_key_colors self" "num_keys self' = num_keys self"
    by (simp_all add: self' ps req4)
  have walls: "\<forall>i j. 0 \<le> i \<and> i < w \<and> 0 \<le> j \<and> j < h \<and> (i = 0 \<or> i = w - 1 \<or> j = 0 \<or> j = h - 1)
            \<longrightarrow> tiles (grid self') (i, j) = Some WallTile"
  proof (intro allI impI)
    fix i j
    assume b: "0 \<le> i \<and> i < w \<and> 0 \<le> j \<and> j < h \<and> (i = 0 \<or> i = w - 1 \<or> j = 0 \<or> j = h - 1)"
    then have "(i, j) \<noteq> (w - 2, h - 2)" using assms(1,2) by auto
    with b have t: "T3 (i, j) = Some WallTile" by (simp add: T3)
    then have "(i, j) \<notin> set ps" using ps(3) by auto
    then have "tiles (grid self5) (i, j) = T3 (i, j)" using ps(5) by blast
    then show "tiles (grid self') (i, j) = Some WallTile" using t by (simp add: g')
  qed
  have goal_notin: "(w - 2, h - 2) \<notin> set ps"
    using ps(3) by (auto simp: T3)
  have goal: "\<forall>p. tiles (grid self') p = Some GoalTile \<longleftrightarrow> p = (w - 2, h - 2)"
  proof (intro allI iffI)
    fix p assume g: "tiles (grid self') p = Some GoalTile"
    have "p \<notin> set ps"
    proof
      assume "p \<in> set ps"
      then obtain n where "n < length ps" "p = ps ! n" by (auto simp: in_set_conv_nth)
      then show False using ps(4) g by (simp add: g')
    qed
    then have "tiles (grid self5) p = T3 p" using ps(5) by blast
    then have "T3 p = Some GoalTile" using g by (simp add: g')
    then show "p = (w - 2, h - 2)" by (cases p) (simp add: T3 split: if_splits)
  next
    fix p assume "p = (w - 2, h - 2)"
    moreover have "tiles (grid self5) (w - 2, h - 2) = T3 (w - 2, h - 2)"
      using goal_notin ps(5) by blast
    ultimately show "tiles (grid self') p = Some GoalTile"
      by (simp add: g' T3)
  qed
  have keys_only: "\<forall>p c. tiles (grid self') p = Some (KeyTile c) \<longrightarrow> p \<in> set ps"
  proof (intro allI impI, rule ccontr)
    fix p c assume k: "tiles (grid self') p = Some (KeyTile c)" and "p \<notin> set ps"
    have "tiles (grid self5) p = T3 p" using ps(5) \<open>p \<notin> set ps\<close> by blast
    then have "T3 p = Some (KeyTile c)" using k by (simp add: g')
    then show False by (cases p) (simp add: T3 split: if_splits)
  qed
  have a_notin: "a \<notin> set ps" using ps(3) by auto
  then have "tiles (grid self5) a = T3 a" using ps(5) by blast
  then have a_tile: "tiles (grid self') a = None" using a_free by (simp add: g')
  obtain ai aj where a: "a = (ai, aj)" by (cases a)
  have a_rng: "0 \<le> ai \<and> ai < w \<and> 0 \<le> aj \<and> aj < h"
    using a_in by (simp add: a cells_in_iff)
  have a_int: "a \<noteq> (w - 2, h - 2) \<and> 0 < ai \<and> ai < w - 1 \<and> 0 < aj \<and> aj < h - 1"
    using a_free a_rng unfolding a by (auto simp: T3 split: if_splits)
  have "int (length ps) = num_keys self' \<and> distinct ps \<and>
        length ps = length (required_key_colors self') \<and>
        (\<forall>n<length ps. tiles (grid self') (ps ! n) = Some (KeyTile (required_key_colors self' ! n))) \<and>
        (\<forall>p c. tiles (grid self') p = Some (KeyTile c) \<longrightarrow> p \<in> set ps) \<and>
        agent_pos self' \<notin> set ps \<and> (w - 2, h - 2) \<notin> set ps"
    using ps(1,2,4) keys_only a_notin goal_notin assms(3) by (simp add: g' req4)
  then have ex: "\<exists>ps. int (length ps) = num_keys self' \<and> distinct ps \<and>
        length ps = length (required_key_colors self') \<and>
        (\<forall>n<length ps. tiles (grid self') (ps ! n) = Some (KeyTile (required_key_colors self' ! n))) \<and>
        (\<forall>p c. tiles (grid self') p = Some (KeyTile c) \<longrightarrow> p \<in> set ps) \<and>
        agent_pos self' \<notin> set ps \<and> (w - 2, h - 2) \<notin> set ps"
    by (rule exI)
  show ?thesis
    using walls goal ex a_tile a_int by (simp add: g' a)
qed


theorem C9_layout_witness:
  "gen_grid env2 4 4 = Inr env2_layout \<and>
   agent_pos env2_layout = (1, 1) \<and>
   tiles (grid env2_layout) (agent_pos env2_layout) = None \<and>
   (\<forall>p. tiles (grid env2_layout) p = Some GoalTile \<longleftrightarrow> p = (2, 2)) \<and>
   tiles (grid env2_layout) (0, 3) = Some WallTile \<and>
   tiles (grid env2_layout) (1, 2) = Some (KeyTile ''red'') \<and>
   tiles (grid env2_layout) (2, 1) = Some (KeyTile ''green'')"
proof -
  have c: "3 \<le> (4::int)" by simp
  have k: "int (length (required_key_colors env2)) = num_keys env2"
    by (simp add: env2_def)
  note r = C9_layout [OF c c k gen_grid_env2]
  have "\<forall>p. tiles (grid env2_layout) p = Some GoalTile \<longleftrightarrow> p = (2, 2)"
    using r by simp
  moreover have "tiles (grid env2_layout) (agent_pos env2_layout) = None"
    using r by simp
  moreover have "agent_pos env2_layout = (1, 1)"
    by (simp add: env2_layout_def)
  moreover have "tiles (grid env2_layout) (0, 3) = Some WallTile"
    "tiles (grid env2_layout) (1, 2) = Some (KeyTile ''red'')"
    "tiles (grid env2_layout) (2, 1) = Some (KeyTile ''green'')"
    by (simp_all add: env2_layout_def wall_rect_def Grid_def)
  ultimately show ?thesis using gen_grid_env2 by simp
qed

end
